theory Spec2Isabelle
  imports Main
begin

text \<open>
  A model of the SignageFlow pages that carry the pairing of a display and the playback
  and editing of a screen's playlist: the display client page (pairing, player effect,
  change subscription), the screen editor page (append, save, issue of a pairing code)
  and the drop handler of the screen card.  React state is a record that the handlers
  map to the next state; the backend is a table of rows passed along with it; whether a
  request is performed, which session sends it and how much time has passed are
  parameters, and so are the methods of the platform (\<open>toUpperCase\<close>, the resolver of
  storage paths).
\<close>

section \<open>JavaScript values used by the pages\<close>

text \<open>
  The indices and lengths the pages compute with are JavaScript numbers that hold
  integers; the only non-integer that the code can produce is \<open>NaN\<close>, from a remainder
  by a zero length.  \<open>js_rem\<close> is the \<open>%\<close> operator (the sign follows the dividend).
\<close>

datatype jsnum = Num int | NaN

fun js_add :: "jsnum \<Rightarrow> jsnum \<Rightarrow> jsnum" where
  "js_add (Num a) (Num b) = Num (a + b)"
| "js_add _ _ = NaN"

fun js_rem :: "jsnum \<Rightarrow> jsnum \<Rightarrow> jsnum" where
  "js_rem (Num a) (Num b) = (if b = 0 then NaN else Num (sgn a * (\<bar>a\<bar> mod \<bar>b\<bar>)))"
| "js_rem _ _ = NaN"

text \<open>\<open>xs[i]\<close>: \<open>undefined\<close> (here \<open>None\<close>) outside the array and at \<open>NaN\<close>.\<close>

fun js_index :: "'a list \<Rightarrow> jsnum \<Rightarrow> 'a option" where
  "js_index xs (Num i) = (if 0 \<le> i \<and> i < int (length xs) then Some (xs ! nat i) else None)"
| "js_index xs NaN = None"

text \<open>\<open>s.startsWith(p)\<close>.\<close>

definition startsWith :: "string \<Rightarrow> string \<Rightarrow> bool" where
  "startsWith s p = (take (length p) s = p)"

text \<open>
  \<open>m?.startsWith(p)\<close> used as a condition: \<open>undefined\<close>, hence falsy, when \<open>m\<close> is
  \<open>null\<close> or \<open>undefined\<close>.
\<close>

definition opt_startsWith :: "string option \<Rightarrow> string \<Rightarrow> bool" where
  "opt_startsWith m p = (case m of None \<Rightarrow> False | Some s \<Rightarrow> startsWith s p)"

text \<open>Truthiness of a \<open>string | null\<close>: \<open>null\<close> and the empty string are falsy.\<close>

definition truthy :: "string option \<Rightarrow> bool" where
  "truthy v = (case v of None \<Rightarrow> False | Some s \<Rightarrow> s \<noteq> [])"

text \<open>
  \<open>d || k\<close> for a \<open>number | null | undefined\<close> holding an integer: the left operand
  when it is a non-zero number, \<open>k\<close> otherwise.
\<close>

definition num_or :: "int option \<Rightarrow> int \<Rightarrow> int" where
  "num_or d k = (case d of None \<Rightarrow> k | Some n \<Rightarrow> if n = 0 then k else n)"

section \<open>Data model (types file and schema)\<close>

text \<open>
  \<open>Media\<close> follows the interface of the types file: \<open>file_size\<close>, \<open>mime_type\<close> and
  \<open>duration\<close> are nullable, \<open>duration\<close> is an \<open>INT\<close> column.
\<close>

record Media =
  m_id :: string
  m_user_id :: string
  m_name :: string
  m_file_path :: string
  m_file_size :: "int option"
  m_mime_type :: "string option"
  m_duration :: "int option"
  m_created_at :: string

text \<open>
  A playlist entry as it is stored in the \<open>playlist\<close> JSON array of a screen.  The
  interface declares it as an extension of \<open>Media\<close>, but the entries are object
  literals and not all of them carry every field (the drop handler of the screen card
  writes four fields only), so every field beyond those four is optional here: \<open>None\<close>
  is a field that is \<open>null\<close> or missing.
\<close>

record PlaylistItem =
  p_id :: string
  p_name :: string
  p_file_path :: string
  p_mime_type :: "string option"
  p_duration :: "int option"
  p_user_id :: "string option"
  p_file_size :: "int option"
  p_created_at :: "string option"

record Screen =
  s_id :: string
  s_user_id :: string
  s_name :: string
  s_pairing_code :: "string option"
  s_playlist :: "PlaylistItem list"
  s_is_online :: bool
  s_last_ping_at :: "string option"
  s_created_at :: string

section \<open>The display client page\<close>

text \<open>
  The component state of \<open>DisplayClientPage\<close> (its six \<open>useState\<close> cells), the
  \<open>signageflow_screen_id\<close> slot of local storage, and the pending timeout of the player
  effect: the milliseconds left and the playlist length its callback closed over.
\<close>

record DisplayClient =
  pairingCode :: string
  loading :: bool
  screenId :: "string option"
  playlist :: "PlaylistItem list"
  currentItemIndex :: jsnum
  mediaUrl :: "string option"
  localStorage :: "string option"
  timer :: "(int \<times> nat) option"

definition initialClient :: DisplayClient where
  "initialClient =
     \<lparr>pairingCode = [], loading = False, screenId = None, playlist = [],
      currentItemIndex = Num 0, mediaUrl = None, localStorage = None, timer = None\<rparr>"

text \<open>
  The media player effect (dependencies \<open>playlist\<close> and \<open>currentItemIndex\<close>).  Before
  it runs again the cleanup of the previous run clears the timeout that run had set.
  \<open>url\<close> is \<open>getPublicUrl\<close> of the storage bucket.
\<close>

definition playerEffect :: "(string \<Rightarrow> string) \<Rightarrow> DisplayClient \<Rightarrow> DisplayClient" where
  "playerEffect url st =
     (let st0 = st\<lparr>timer := None\<rparr> in
      if length (playlist st) = 0 then st0\<lparr>mediaUrl := None\<rparr>
      else
        (case js_index (playlist st) (currentItemIndex st) of
           None \<Rightarrow> st0
         | Some currentItem \<Rightarrow>
             (let st1 = st0\<lparr>mediaUrl := Some (url (p_file_path currentItem))\<rparr> in
              if \<not> opt_startsWith (p_mime_type currentItem) ''video/''
              then st1\<lparr>timer := Some (num_or (p_duration currentItem) 10 * 1000,
                                       length (playlist st))\<rparr>
              else st1)))"

text \<open>
  \<open>setCurrentItemIndex\<close> with an updater: a state equal to the previous one (by
  \<open>Object.is\<close>, under which \<open>NaN\<close> equals itself) causes no render and the effect does
  not run again.
\<close>

definition setCurrentItemIndex ::
  "(string \<Rightarrow> string) \<Rightarrow> (jsnum \<Rightarrow> jsnum) \<Rightarrow> DisplayClient \<Rightarrow> DisplayClient" where
  "setCurrentItemIndex url f st =
     (let i = f (currentItemIndex st) in
      if i = currentItemIndex st then st
      else playerEffect url (st\<lparr>currentItemIndex := i\<rparr>))"

text \<open>The updater both advance paths pass: \<open>(prev + 1) % playlist.length\<close>.\<close>

definition nextIndex :: "nat \<Rightarrow> jsnum \<Rightarrow> jsnum" where
  "nextIndex len prev = js_rem (js_add prev (Num 1)) (Num (int len))"

text \<open>The callback of the timeout, with the length it closed over.\<close>

definition timerCallback :: "(string \<Rightarrow> string) \<Rightarrow> nat \<Rightarrow> DisplayClient \<Rightarrow> DisplayClient" where
  "timerCallback url len st = setCurrentItemIndex url (nextIndex len) st"

definition handleVideoEnded :: "(string \<Rightarrow> string) \<Rightarrow> DisplayClient \<Rightarrow> DisplayClient" where
  "handleVideoEnded url st = setCurrentItemIndex url (nextIndex (length (playlist st))) st"

text \<open>
  The callback of the change subscription: \<open>setPlaylist(newPlaylist)\<close> and
  \<open>setCurrentItemIndex(0)\<close>; the playlist is a new array, so the effect runs again.
\<close>

definition onPlaylistUpdate ::
  "(string \<Rightarrow> string) \<Rightarrow> PlaylistItem list \<Rightarrow> DisplayClient \<Rightarrow> DisplayClient" where
  "onPlaylistUpdate url newPlaylist st =
     playerEffect url (st\<lparr>playlist := newPlaylist, currentItemIndex := Num 0\<rparr>)"

text \<open>
  One millisecond passes.  A pending timeout that is due fires: it is gone, and its
  callback runs.  A delay that is not positive fires at the next millisecond.
\<close>

definition tick :: "(string \<Rightarrow> string) \<Rightarrow> DisplayClient \<Rightarrow> DisplayClient" where
  "tick url st =
     (case timer st of
        None \<Rightarrow> st
      | Some (d, len) \<Rightarrow>
          if d \<le> 1 then timerCallback url len (st\<lparr>timer := None\<rparr>)
          else st\<lparr>timer := Some (d - 1, len)\<rparr>)"

fun elapse :: "(string \<Rightarrow> string) \<Rightarrow> nat \<Rightarrow> DisplayClient \<Rightarrow> DisplayClient" where
  "elapse url 0 st = st"
| "elapse url (Suc n) st = elapse url n (tick url st)"

text \<open>
  What the page renders.  Reading \<open>mime_type\<close> of an \<open>undefined\<close> current item throws;
  the read is guarded by \<open>mediaUrl &&\<close>.
\<close>

datatype view = PairingForm | EmptyNotice | Blank | Img string string | Video string

datatype js_error = TypeError

definition render :: "DisplayClient \<Rightarrow> js_error + view" where
  "render st =
     (if truthy (screenId st) then
        (if length (playlist st) = 0 then Inr EmptyNotice
         else
           (case mediaUrl st of
              None \<Rightarrow> Inr Blank
            | Some u \<Rightarrow>
                if u = [] then Inr Blank
                else
                  (case js_index (playlist st) (currentItemIndex st) of
                     None \<Rightarrow> Inl TypeError
                   | Some currentItem \<Rightarrow>
                       if opt_startsWith (p_mime_type currentItem) ''image/''
                       then Inr (Img u (p_name currentItem))
                       else if opt_startsWith (p_mime_type currentItem) ''video/''
                       then Inr (Video u)
                       else Inr Blank)))
      else Inr PairingForm)"

text \<open>
  An advance of the playback index is the callback of the timeout or the handler of the
  video element's \<open>ended\<close> event.  A timeout's callback runs with the length of the
  playlist its effect saw, which is the current one (\<open>timer_closure\<close> below).
\<close>

datatype advance = ByTimer | ByVideoEnd

definition advanceStep :: "(string \<Rightarrow> string) \<Rightarrow> advance \<Rightarrow> DisplayClient \<Rightarrow> DisplayClient" where
  "advanceStep url k st =
     (case k of
        ByTimer \<Rightarrow> timerCallback url (length (playlist st)) (st\<lparr>timer := None\<rparr>)
      | ByVideoEnd \<Rightarrow> handleVideoEnded url st)"

text \<open>
  The idle state of the player: nothing to play, no timeout pending, no current media,
  and the page shows the notice of the empty playlist (or, unbound, the pairing form).
\<close>

definition idle :: "DisplayClient \<Rightarrow> bool" where
  "idle s = (playlist s = [] \<and> timer s = None \<and> mediaUrl s = None
             \<and> render s = (if truthy (screenId s) then Inr EmptyNotice else Inr PairingForm))"

text \<open>The pending timeout closed over the length of the current playlist.\<close>

definition timer_closure :: "DisplayClient \<Rightarrow> bool" where
  "timer_closure s = (case timer s of None \<Rightarrow> True | Some (d, len) \<Rightarrow> len = length (playlist s))"

text \<open>The items of the two-item scenario, and a resolver of storage paths.\<close>

definition image5 :: PlaylistItem where
  "image5 = \<lparr>p_id = ''m1'', p_name = ''poster.png'', p_file_path = ''u1/1-poster.png'',
              p_mime_type = Some ''image/png'', p_duration = Some 5, p_user_id = Some ''u1'',
              p_file_size = Some 2048, p_created_at = Some ''2025-01-01''\<rparr>"

definition video1 :: PlaylistItem where
  "video1 = \<lparr>p_id = ''m2'', p_name = ''clip.mp4'', p_file_path = ''u1/2-clip.mp4'',
              p_mime_type = Some ''video/mp4'', p_duration = None, p_user_id = Some ''u1'',
              p_file_size = Some 4096, p_created_at = Some ''2025-01-02''\<rparr>"

definition exampleUrl :: "string \<Rightarrow> string" where
  "exampleUrl path = ''https://cdn.example/media/'' @ path"

section \<open>The record store\<close>

text \<open>
  The \<open>screens\<close> table behind the client library, at the level of the requests the
  pages send: a select or an update of the rows that a filter matches.  A request either
  is performed or answers with an error (the flag \<open>ok\<close>, chosen by the environment, is
  \<open>False\<close>) and then changes nothing.  The schema declares \<open>id\<close> the primary key and
  \<open>pairing_code\<close> \<open>UNIQUE\<close>; an update that would break either is refused.
\<close>

definition wf_store :: "Screen list \<Rightarrow> bool" where
  "wf_store db =
     (distinct (map s_id db) \<and> distinct (filter (\<lambda>c. c \<noteq> None) (map s_pairing_code db)))"

text \<open>\<open>.single()\<close>: the row when the filter matched exactly one, an error otherwise.\<close>

definition single_row :: "'a list \<Rightarrow> 'a option" where
  "single_row rows = (case rows of [r] \<Rightarrow> Some r | _ \<Rightarrow> None)"

definition select_single :: "bool \<Rightarrow> (Screen \<Rightarrow> bool) \<Rightarrow> Screen list \<Rightarrow> Screen option" where
  "select_single ok matching db = (if ok then single_row (filter matching db) else None)"

text \<open>The result of an update: whether it went through, and the table after it.\<close>

definition update_eq_id ::
  "bool \<Rightarrow> string \<Rightarrow> (Screen \<Rightarrow> Screen) \<Rightarrow> Screen list \<Rightarrow> bool \<times> Screen list" where
  "update_eq_id ok sid f db =
     (let db' = map (\<lambda>s. if s_id s = sid then f s else s) db in
      if ok \<and> wf_store db' then (True, db') else (False, db))"

text \<open>
  Row-level security is enabled on \<open>screens\<close> with two policies: the owner may do
  everything with a row (\<open>FOR ALL USING (auth.uid() = user_id)\<close>), and anyone may read a
  row that has a pairing code (\<open>FOR SELECT USING (pairing_code IS NOT NULL)\<close>).  The
  session of a request is the identifier of the signed-in user, \<open>None\<close> without one, for
  which \<open>auth.uid()\<close> is \<open>NULL\<close> and the comparison with \<open>user_id\<close> does not hold.
\<close>

definition own_row :: "string option \<Rightarrow> Screen \<Rightarrow> bool" where
  "own_row uid s = (uid = Some (s_user_id s))"

definition may_select :: "string option \<Rightarrow> Screen \<Rightarrow> bool" where
  "may_select uid s = (own_row uid s \<or> s_pairing_code s \<noteq> None)"

definition may_update :: "string option \<Rightarrow> Screen \<Rightarrow> bool" where
  "may_update uid s = own_row uid s"

text \<open>
  The requests of a session.  A select sees the rows the policies let it read.  An
  update changes, among the rows its filter matches, those the session may update, and
  reports no error for the others; a changed row that the policy does not admit any
  more is an error.  The editor and the screen card belong to the signed-in owner, who
  may read and update the own rows, and send the requests above; the display client
  has whatever session its browser has.
\<close>

definition select_single_as ::
  "string option \<Rightarrow> bool \<Rightarrow> (Screen \<Rightarrow> bool) \<Rightarrow> Screen list \<Rightarrow> Screen option" where
  "select_single_as uid ok matching db = select_single ok matching (filter (may_select uid) db)"

definition update_eq_id_as ::
  "string option \<Rightarrow> bool \<Rightarrow> string \<Rightarrow> (Screen \<Rightarrow> Screen) \<Rightarrow> Screen list
     \<Rightarrow> bool \<times> Screen list" where
  "update_eq_id_as uid ok sid f db =
     (if list_ex (\<lambda>s. s_id s = sid \<and> may_update uid s \<and> \<not> may_update uid (f s)) db
      then (False, db)
      else update_eq_id ok sid (\<lambda>s. if may_update uid s then f s else s) db)"

section \<open>Pairing on the display client\<close>

datatype pairing_result = InvalidCode | Paired string

text \<open>
  \<open>handlePairing\<close>: the look-up of the one screen whose pairing code is the upper-cased
  input; on a hit the code is set to \<open>null\<close> (the answer to that update is not looked
  at) and the identifier is stored in local storage and in the state.  The result is
  the toast: the error toast is \<open>InvalidCode\<close>.  \<open>toUpperCase\<close> is the method of the
  JavaScript string, \<open>uid\<close> the session of the browser the page runs in.
\<close>

definition handlePairing ::
  "(string \<Rightarrow> string) \<Rightarrow> string option \<Rightarrow> bool \<Rightarrow> bool \<Rightarrow> DisplayClient \<Rightarrow> Screen list
     \<Rightarrow> pairing_result \<times> DisplayClient \<times> Screen list" where
  "handlePairing toUpperCase uid select_ok update_ok st db =
     (case select_single_as uid select_ok
             (\<lambda>s. s_pairing_code s = Some (toUpperCase (pairingCode st))) db of
        None \<Rightarrow> (InvalidCode, st\<lparr>loading := False\<rparr>, db)
      | Some row \<Rightarrow>
          (let db' = snd (update_eq_id_as uid update_ok (s_id row)
                            (\<lambda>s. s\<lparr>s_pairing_code := None\<rparr>) db)
           in (Paired (s_id row),
               st\<lparr>localStorage := Some (s_id row), screenId := Some (s_id row),
                  loading := False\<rparr>,
               db')))"

section \<open>The screen editor page\<close>

text \<open>
  The state of \<open>ScreenEditorPage\<close> that its playlist and pairing handlers use:
  the route parameter \<open>screenId\<close>, the working playlist, the code shown in the modal.
\<close>

record Editor =
  e_screenId :: "string option"
  e_playlist :: "PlaylistItem list"
  e_pairingCode :: "string option"
  e_isPairingModalOpen :: bool

text \<open>\<open>{ ...media }\<close>: the playlist entry with the fields of the media row.\<close>

definition spread :: "Media \<Rightarrow> PlaylistItem" where
  "spread media =
     \<lparr>p_id = m_id media, p_name = m_name media, p_file_path = m_file_path media,
      p_mime_type = m_mime_type media, p_duration = m_duration media,
      p_user_id = Some (m_user_id media), p_file_size = m_file_size media,
      p_created_at = Some (m_created_at media)\<rparr>"

definition addToPlaylist :: "Media \<Rightarrow> Editor \<Rightarrow> Editor" where
  "addToPlaylist media ed =
     (let playlistItem =
            (spread media)\<lparr>p_duration :=
               Some (num_or (m_duration media)
                       (if opt_startsWith (m_mime_type media) ''image/'' then 10 else 30))\<rparr>
      in ed\<lparr>e_playlist := e_playlist ed @ [playlistItem]\<rparr>)"

datatype toast = Saved | SaveFailed

text \<open>\<open>savePlaylist\<close>: one update of the \<open>playlist\<close> column of the screen's row.\<close>

definition savePlaylist ::
  "bool \<Rightarrow> Editor \<Rightarrow> Screen list \<Rightarrow> toast option \<times> Screen list" where
  "savePlaylist ok ed db =
     (if \<not> truthy (e_screenId ed) then (None, db)
      else
        (let (applied, db') =
               update_eq_id ok (the (e_screenId ed)) (\<lambda>s. s\<lparr>s_playlist := e_playlist ed\<rparr>) db
         in (Some (if applied then Saved else SaveFailed), db')))"

text \<open>
  Reading the playlist of a screen back: the select of \<open>fetchScreen\<close> on the editor
  and of \<open>fetchPlaylistAndSubscribe\<close> on the display (\<open>.eq('id', screenId).single()\<close>).
\<close>

definition readPlaylist :: "bool \<Rightarrow> string \<Rightarrow> Screen list \<Rightarrow> PlaylistItem list option" where
  "readPlaylist ok sid db = map_option s_playlist (select_single ok (\<lambda>s. s_id s = sid) db)"

text \<open>
  \<open>handleShowPairingCode\<close>: \<open>newCode\<close> is what \<open>generatePairingCode\<close> returned; it is
  written to the row as it is.
\<close>

definition handleShowPairingCode ::
  "bool \<Rightarrow> string \<Rightarrow> Editor \<Rightarrow> Screen list \<Rightarrow> Editor \<times> Screen list" where
  "handleShowPairingCode ok newCode ed db =
     (if \<not> truthy (e_screenId ed) then (ed, db)
      else
        (let (applied, db') =
               update_eq_id ok (the (e_screenId ed)) (\<lambda>s. s\<lparr>s_pairing_code := Some newCode\<rparr>) db
         in if applied then (ed\<lparr>e_pairingCode := Some newCode, e_isPairingModalOpen := True\<rparr>, db')
            else (ed, db')))"

section \<open>The drop handler of the screen card\<close>







section \<open>Example data\<close>

text \<open>
  Two screens of one owner, the first with the pairing code of the scenario; a client
  that typed a code; an editor with a working playlist; a media row that is neither an
  image nor a video; dropped files and the environments of two drops in which every
  request is performed.
\<close>

definition lobby :: Screen where
  "lobby = \<lparr>s_id = ''S1'', s_user_id = ''u1'', s_name = ''Lobby'',
            s_pairing_code = Some ''AB12CD'', s_playlist = [image5], s_is_online = False,
            s_last_ping_at = None, s_created_at = ''2025-01-01''\<rparr>"

definition canteen :: Screen where
  "canteen = \<lparr>s_id = ''S2'', s_user_id = ''u1'', s_name = ''Canteen'',
              s_pairing_code = None, s_playlist = [], s_is_online = False,
              s_last_ping_at = None, s_created_at = ''2025-01-03''\<rparr>"

text \<open>What \<open>toUpperCase\<close> returns for a string of ASCII characters.\<close>

definition upperAscii :: "string \<Rightarrow> string" where
  "upperAscii s =
     map (\<lambda>c. case map_of (zip ''abcdefghijklmnopqrstuvwxyz'' ''ABCDEFGHIJKLMNOPQRSTUVWXYZ'') c of
                 None \<Rightarrow> c | Some u \<Rightarrow> u) s"

definition typed :: "string \<Rightarrow> DisplayClient" where
  "typed code = initialClient\<lparr>pairingCode := code\<rparr>"

definition editor1 :: Editor where
  "editor1 = \<lparr>e_screenId = Some ''S1'', e_playlist = [image5, video1, image5],
               e_pairingCode = None, e_isPairingModalOpen = False\<rparr>"

definition pdfMedia :: Media where
  "pdfMedia = \<lparr>m_id = ''m3'', m_user_id = ''u1'', m_name = ''menu.pdf'',
               m_file_path = ''u1/3-menu.pdf'', m_file_size = Some 1024,
               m_mime_type = Some ''application/pdf'', m_duration = None,
               m_created_at = ''2025-01-04''\<rparr>"

definition pngMedia :: Media where
  "pngMedia = pdfMedia\<lparr>m_name := ''logo.png'', m_mime_type := Some ''image/png''\<rparr>"








section \<open>Properties of the display client\<close>

lemma playerEffect_keeps [simp]:
  "playlist (playerEffect url st) = playlist st"
  "currentItemIndex (playerEffect url st) = currentItemIndex st"
  "screenId (playerEffect url st) = screenId st"
  "localStorage (playerEffect url st) = localStorage st"
  by (simp_all add: playerEffect_def Let_def split: option.splits)

lemma setCurrentItemIndex_index [simp]:
  "currentItemIndex (setCurrentItemIndex url f st) = f (currentItemIndex st)"
  by (simp add: setCurrentItemIndex_def Let_def)

lemma setCurrentItemIndex_keeps [simp]:
  "playlist (setCurrentItemIndex url f st) = playlist st"
  "screenId (setCurrentItemIndex url f st) = screenId st"
  "localStorage (setCurrentItemIndex url f st) = localStorage st"
  by (simp_all add: setCurrentItemIndex_def Let_def)

lemma timerCallback_index [simp]:
  "currentItemIndex (timerCallback url len st) = nextIndex len (currentItemIndex st)"
  by (simp add: timerCallback_def)

lemma handleVideoEnded_index [simp]:
  "currentItemIndex (handleVideoEnded url st)
     = nextIndex (length (playlist st)) (currentItemIndex st)"
  by (simp add: handleVideoEnded_def)

lemma handleVideoEnded_keeps [simp]:
  "playlist (handleVideoEnded url st) = playlist st"
  "screenId (handleVideoEnded url st) = screenId st"
  by (simp_all add: handleVideoEnded_def)

lemma advanceStep_index [simp]:
  "currentItemIndex (advanceStep url k st)
     = nextIndex (length (playlist st)) (currentItemIndex st)"
  by (cases k) (simp_all add: advanceStep_def)

lemma advanceStep_playlist [simp]:
  "playlist (advanceStep url k st) = playlist st"
  by (cases k) (simp_all add: advanceStep_def timerCallback_def)

lemma fold_advance_playlist [simp]:
  "playlist (fold (advanceStep url) ks st) = playlist st"
  by (induction ks arbitrary: st) simp_all

subsection \<open>The captured length is the current length\<close>

lemma timer_closure_playerEffect: "timer_closure (playerEffect url st)"
  by (simp add: timer_closure_def playerEffect_def Let_def split: option.splits)

lemma timer_closure_setIndex:
  "timer_closure st \<Longrightarrow> timer_closure (setCurrentItemIndex url f st)"
  by (simp add: setCurrentItemIndex_def Let_def timer_closure_playerEffect)

lemma timer_closure_tick:
  assumes "timer_closure st"
  shows "timer_closure (tick url st)"
proof (cases "timer st")
  case None
  with assms show ?thesis by (simp add: tick_def)
next
  case (Some p)
  obtain d len where p: "p = (d, len)" by (cases p)
  show ?thesis
  proof (cases "d \<le> 1")
    case True
    have "timer_closure (st\<lparr>timer := None\<rparr>)" by (simp add: timer_closure_def)
    then have "timer_closure (timerCallback url len (st\<lparr>timer := None\<rparr>))"
      unfolding timerCallback_def by (rule timer_closure_setIndex)
    with Some p True show ?thesis by (simp add: tick_def)
  next
    case False
    with Some p assms show ?thesis by (simp add: tick_def timer_closure_def)
  qed
qed

lemma tick_fires_advanceStep:
  assumes "timer_closure st" and "timer st = Some (d, len)" and "d \<le> 1"
  shows "tick url st = advanceStep url ByTimer st"
  using assms by (simp add: tick_def advanceStep_def timer_closure_def)

subsection \<open>The index after N advances\<close>

lemma nextIndex_Num:
  assumes "0 \<le> i" and "0 < len"
  shows "nextIndex len (Num i) = Num ((i + 1) mod int len)"
  using assms by (simp add: nextIndex_def sgn_if)

lemma next_mod_int: "(int (k mod L) + 1) mod int L = int (Suc k mod L)"
proof -
  have "int (k mod L) + 1 = int (Suc (k mod L))" by simp
  then have "(int (k mod L) + 1) mod int L = int (Suc (k mod L) mod L)"
    by (simp only: of_nat_mod)
  then show ?thesis by (simp only: mod_Suc_eq)
qed

lemma fold_advance_index:
  assumes "playlist st \<noteq> []"
    and "currentItemIndex st = Num (int (k mod length (playlist st)))"
  shows "currentItemIndex (fold (advanceStep url) ks st)
           = Num (int ((k + length ks) mod length (playlist st)))"
  using assms
proof (induction ks arbitrary: st k)
  case Nil
  then show ?case by simp
next
  case (Cons a ks)
  let ?L = "length (playlist st)"
  have L: "0 < ?L" using Cons.prems(1) by simp
  have "currentItemIndex (advanceStep url a st) = Num ((int (k mod ?L) + 1) mod int ?L)"
    using Cons.prems(2) L by (simp add: nextIndex_Num)
  also have "(int (k mod ?L) + 1) mod int ?L = int (Suc k mod ?L)"
    by (rule next_mod_int)
  finally have "currentItemIndex (advanceStep url a st)
                  = Num (int (Suc k mod length (playlist (advanceStep url a st))))"
    by simp
  from Cons.IH[OF _ this] Cons.prems(1) show ?case by simp
qed

lemma last_index_wraps:
  assumes "playlist st \<noteq> []"
  shows "nextIndex (length (playlist st)) (Num (int (length (playlist st)) - 1)) = Num 0"
proof -
  have "0 \<le> int (length (playlist st)) - 1" and "0 < length (playlist st)"
    using assms by (simp_all add: Suc_leI)
  from nextIndex_Num[OF this] show ?thesis by simp
qed

text \<open>
  Claim C3.  For a fixed playlist of length \<open>L > 0\<close> and playback starting at index 0,
  after any sequence of \<open>N\<close> advances, each by the timeout's callback or by the video's
  end handler, the index is \<open>N mod L\<close> and the playlist is the same; an advance at the
  last index \<open>L - 1\<close> gives index 0, so playback never ends.
\<close>

theorem index_after_advances:
  assumes "playlist st \<noteq> []" and "currentItemIndex st = Num 0"
  shows "currentItemIndex (fold (advanceStep url) ks st)
           = Num (int (length ks mod length (playlist st)))
       \<and> playlist (fold (advanceStep url) ks st) = playlist st
       \<and> currentItemIndex
            (advanceStep url k (st\<lparr>currentItemIndex := Num (int (length (playlist st)) - 1)\<rparr>))
           = Num 0"
  using fold_advance_index[of st 0 url ks] last_index_wraps[of st] assms by simp

theorem index_after_advances_witness:
  "playlist (initialClient\<lparr>playlist := [image5, video1, image5]\<rparr>) \<noteq> []
   \<and> currentItemIndex (initialClient\<lparr>playlist := [image5, video1, image5]\<rparr>) = Num 0
   \<and> currentItemIndex
        (fold (advanceStep exampleUrl) [ByTimer, ByVideoEnd, ByTimer, ByTimer]
           (initialClient\<lparr>playlist := [image5, video1, image5]\<rparr>)) = Num 1
   \<and> currentItemIndex
        (advanceStep exampleUrl ByTimer
           (initialClient\<lparr>playlist := [image5, video1, image5], currentItemIndex := Num 2\<rparr>))
       = Num 0"
proof -
  let ?st = "initialClient\<lparr>playlist := [image5, video1, image5]\<rparr>"
  have h1: "playlist ?st \<noteq> []" by simp
  have h2: "currentItemIndex ?st = Num 0" by (simp add: initialClient_def)
  from index_after_advances[OF h1 h2, of exampleUrl "[ByTimer, ByVideoEnd, ByTimer, ByTimer]" ByTimer]
  show ?thesis using h1 h2 by simp
qed

subsection \<open>Replacement of the playlist\<close>

text \<open>
  Claim C6.  The callback of the change subscription replaces the playlist of the client
  by the playlist of the notification, whole, and sets the playback index to 0, whatever
  the state before was.
\<close>

theorem onPlaylistUpdate_resets:
  "playlist (onPlaylistUpdate url newPlaylist st) = newPlaylist
   \<and> currentItemIndex (onPlaylistUpdate url newPlaylist st) = Num 0"
  by (simp add: onPlaylistUpdate_def)

subsection \<open>Timeouts and the passing of time\<close>

lemma elapse_no_timer:
  "timer st = None \<Longrightarrow> elapse url n st = st"
  by (induction n) (simp_all add: tick_def)

lemma elapse_countdown:
  "timer st = Some (d, len) \<Longrightarrow> int n < d
     \<Longrightarrow> elapse url n st = st\<lparr>timer := Some (d - int n, len)\<rparr>"
proof (induction n arbitrary: st d)
  case 0
  then show ?case by simp
next
  case (Suc n)
  from Suc.prems have t: "tick url st = st\<lparr>timer := Some (d - 1, len)\<rparr>"
    by (simp add: tick_def)
  have "elapse url n (st\<lparr>timer := Some (d - 1, len)\<rparr>)
          = st\<lparr>timer := Some (d - 1, len)\<rparr>\<lparr>timer := Some (d - 1 - int n, len)\<rparr>"
    using Suc.prems by (intro Suc.IH) simp_all
  with t show ?case by (simp add: algebra_simps)
qed

lemma elapse_add: "elapse url (m + n) st = elapse url n (elapse url m st)"
  by (induction m arbitrary: st) simp_all

lemma elapse_fires:
  assumes "timer st = Some (int (Suc n), len)"
  shows "elapse url (Suc n) st = timerCallback url len (st\<lparr>timer := None\<rparr>)"
proof -
  have "elapse url n st = st\<lparr>timer := Some (1, len)\<rparr>"
    using elapse_countdown[OF assms, of n url] by simp
  moreover have "elapse url (Suc n) st = tick url (elapse url n st)"
    using elapse_add[of url n 1 st] by simp
  ultimately show ?thesis by (simp add: tick_def)
qed

lemma playerEffect_video:
  assumes "js_index (playlist st) (currentItemIndex st) = Some item"
    and "opt_startsWith (p_mime_type item) ''video/''"
  shows "timer (playerEffect url st) = None"
proof -
  from assms(1) have "playlist st \<noteq> []"
    by (cases "currentItemIndex st") (auto split: if_splits)
  with assms show ?thesis by (simp add: playerEffect_def Let_def)
qed

lemma playerEffect_timed:
  assumes "js_index (playlist st) (currentItemIndex st) = Some item"
    and "\<not> opt_startsWith (p_mime_type item) ''video/''"
  shows "timer (playerEffect url st)
           = Some (num_or (p_duration item) 10 * 1000, length (playlist st))"
proof -
  from assms(1) have "playlist st \<noteq> []"
    by (cases "currentItemIndex st") (auto split: if_splits)
  with assms show ?thesis by (simp add: playerEffect_def Let_def)
qed

lemma playerEffect_empty:
  assumes "playlist st = []"
  shows "timer (playerEffect url st) = None" and "mediaUrl (playerEffect url st) = None"
  using assms by (simp_all add: playerEffect_def Let_def)

subsection \<open>Video items\<close>

lemma video_entry:
  assumes "js_index (playlist st) (currentItemIndex st) = Some item"
    and "opt_startsWith (p_mime_type item) ''video/''"
  shows "timer (playerEffect url st) = None
       \<and> (\<forall>n. elapse url n (playerEffect url st) = playerEffect url st)
       \<and> currentItemIndex (handleVideoEnded url (playerEffect url st))
           = nextIndex (length (playlist st)) (currentItemIndex st)"
  using playerEffect_video[OF assms] by (simp add: elapse_no_timer)

lemma image_then_video:
  fixes url :: "string \<Rightarrow> string" and st :: DisplayClient
  assumes img: "\<not> opt_startsWith (p_mime_type img) ''video/''"
    and dur: "p_duration img = Some 5"
    and vid: "opt_startsWith (p_mime_type vid) ''video/''"
  defines "st0 \<equiv> onPlaylistUpdate url [img, vid] st"
  shows "(\<forall>n. n < 5000 \<longrightarrow> currentItemIndex (elapse url n st0) = Num 0)
       \<and> (\<forall>n. currentItemIndex (elapse url (5000 + n) st0) = Num 1
              \<and> timer (elapse url (5000 + n) st0) = None
              \<and> currentItemIndex (handleVideoEnded url (elapse url (5000 + n) st0)) = Num 0)"
proof -
  let ?s = "st\<lparr>playlist := [img, vid], currentItemIndex := Num 0\<rparr>"
  have st0: "st0 = playerEffect url ?s" by (simp add: st0_def onPlaylistUpdate_def)
  have "js_index (playlist ?s) (currentItemIndex ?s) = Some img" by simp
  from playerEffect_timed[OF this img, of url] dur
  have t0: "timer st0 = Some (5000, 2)" by (simp add: st0 num_or_def)
  have pl0: "playlist st0 = [img, vid]" and i0: "currentItemIndex st0 = Num 0"
    by (simp_all add: st0)
  have before: "currentItemIndex (elapse url n st0) = Num 0" if "n < 5000" for n
    using elapse_countdown[OF t0, of n url] that i0 by simp
  let ?s1 = "st0\<lparr>timer := None, currentItemIndex := Num 1\<rparr>"
  have "elapse url (Suc 4999) st0 = timerCallback url 2 (st0\<lparr>timer := None\<rparr>)"
    using t0 by (intro elapse_fires) simp
  then have e5: "elapse url 5000 st0 = playerEffect url ?s1"
    by (simp add: timerCallback_def setCurrentItemIndex_def nextIndex_def i0)
  have "js_index (playlist ?s1) (currentItemIndex ?s1) = Some vid" by (simp add: pl0)
  from playerEffect_video[OF this vid, of url]
  have t5: "timer (elapse url 5000 st0) = None" by (simp add: e5)
  have after: "elapse url (5000 + n) st0 = elapse url 5000 st0" for n
    using elapse_add[of url 5000 n st0] elapse_no_timer[OF t5] by simp
  have i5: "currentItemIndex (elapse url 5000 st0) = Num 1"
    and pl5: "playlist (elapse url 5000 st0) = [img, vid]"
    by (simp_all add: e5 pl0)
  have "currentItemIndex (handleVideoEnded url (elapse url 5000 st0)) = Num 0"
    by (simp add: i5 pl5 nextIndex_def)
  with before after t5 i5 show ?thesis by simp
qed

text \<open>
  Claim C7.  When the player effect runs at an index whose item has a video MIME type,
  it leaves no timeout pending, so no amount of elapsed time changes the state, and the
  handler of the \<open>ended\<close> event moves the index by the same \<open>(index + 1) % length\<close> as
  the timeout's callback.  For a playlist of an item that is not a video, with duration
  5, followed by a video: the index is 0 during the first 5000 milliseconds, is 1 from
  then on for as long as only time passes, and the \<open>ended\<close> event then makes it 0.
\<close>

theorem video_advances_only_on_ended:
  fixes url :: "string \<Rightarrow> string" and st sc :: DisplayClient
  shows "(js_index (playlist st) (currentItemIndex st) = Some item
            \<and> opt_startsWith (p_mime_type item) ''video/''
          \<longrightarrow> timer (playerEffect url st) = None
              \<and> (\<forall>n. elapse url n (playerEffect url st) = playerEffect url st)
              \<and> currentItemIndex (handleVideoEnded url (playerEffect url st))
                  = nextIndex (length (playlist st)) (currentItemIndex st)
              \<and> currentItemIndex (timerCallback url (length (playlist st)) st)
                  = nextIndex (length (playlist st)) (currentItemIndex st))
       \<and> (\<not> opt_startsWith (p_mime_type img) ''video/'' \<and> p_duration img = Some 5
            \<and> opt_startsWith (p_mime_type vid) ''video/''
          \<longrightarrow> (\<forall>n. n < 5000
                    \<longrightarrow> currentItemIndex (elapse url n (onPlaylistUpdate url [img, vid] sc)) = Num 0)
              \<and> (\<forall>n. currentItemIndex (elapse url (5000 + n) (onPlaylistUpdate url [img, vid] sc))
                        = Num 1
                     \<and> timer (elapse url (5000 + n) (onPlaylistUpdate url [img, vid] sc)) = None
                     \<and> currentItemIndex
                          (handleVideoEnded url
                             (elapse url (5000 + n) (onPlaylistUpdate url [img, vid] sc)))
                        = Num 0))"
proof -
  have general:
    "js_index (playlist st) (currentItemIndex st) = Some item
       \<and> opt_startsWith (p_mime_type item) ''video/''
     \<longrightarrow> timer (playerEffect url st) = None
         \<and> (\<forall>n. elapse url n (playerEffect url st) = playerEffect url st)
         \<and> currentItemIndex (handleVideoEnded url (playerEffect url st))
             = nextIndex (length (playlist st)) (currentItemIndex st)
         \<and> currentItemIndex (timerCallback url (length (playlist st)) st)
             = nextIndex (length (playlist st)) (currentItemIndex st)"
    using video_entry[of st item url] timerCallback_index[of url "length (playlist st)" st]
    by blast
  from general image_then_video[of img vid url sc] show ?thesis by blast
qed

theorem video_advances_only_on_ended_witness:
  "js_index (playlist (initialClient\<lparr>playlist := [image5, video1], currentItemIndex := Num 1\<rparr>))
      (currentItemIndex (initialClient\<lparr>playlist := [image5, video1], currentItemIndex := Num 1\<rparr>))
     = Some video1
   \<and> opt_startsWith (p_mime_type video1) ''video/''
   \<and> \<not> opt_startsWith (p_mime_type image5) ''video/''
   \<and> p_duration image5 = Some 5
   \<and> timer (playerEffect exampleUrl
        (initialClient\<lparr>playlist := [image5, video1], currentItemIndex := Num 1\<rparr>)) = None
   \<and> currentItemIndex (handleVideoEnded exampleUrl (playerEffect exampleUrl
        (initialClient\<lparr>playlist := [image5, video1], currentItemIndex := Num 1\<rparr>))) = Num 0
   \<and> currentItemIndex
        (elapse exampleUrl 4999 (onPlaylistUpdate exampleUrl [image5, video1] initialClient))
       = Num 0
   \<and> currentItemIndex
        (elapse exampleUrl (5000 + 0) (onPlaylistUpdate exampleUrl [image5, video1] initialClient))
       = Num 1
   \<and> currentItemIndex
        (elapse exampleUrl (5000 + 86400000)
           (onPlaylistUpdate exampleUrl [image5, video1] initialClient))
       = Num 1
   \<and> currentItemIndex
        (handleVideoEnded exampleUrl
           (elapse exampleUrl (5000 + 86400000)
              (onPlaylistUpdate exampleUrl [image5, video1] initialClient)))
       = Num 0"
proof -
  let ?st = "initialClient\<lparr>playlist := [image5, video1], currentItemIndex := Num 1\<rparr>"
  let ?sc = "onPlaylistUpdate exampleUrl [image5, video1] initialClient"
  have h1: "js_index (playlist ?st) (currentItemIndex ?st) = Some video1" by simp
  have h2: "opt_startsWith (p_mime_type video1) ''video/''"
    by (simp add: video1_def opt_startsWith_def startsWith_def)
  have h3: "\<not> opt_startsWith (p_mime_type image5) ''video/''"
    by (simp add: image5_def opt_startsWith_def startsWith_def)
  have h4: "p_duration image5 = Some 5" by (simp add: image5_def)
  note T = video_advances_only_on_ended[of ?st video1 exampleUrl image5 video1 initialClient]
  from T h1 h2 have a: "timer (playerEffect exampleUrl ?st) = None"
    and b: "currentItemIndex (handleVideoEnded exampleUrl (playerEffect exampleUrl ?st))
             = nextIndex (length (playlist ?st)) (currentItemIndex ?st)"
    by blast+
  from T h2 h3 h4 have c: "\<forall>n. n < 5000 \<longrightarrow> currentItemIndex (elapse exampleUrl n ?sc) = Num 0"
    and d: "\<forall>n. currentItemIndex (elapse exampleUrl (5000 + n) ?sc) = Num 1
               \<and> currentItemIndex (handleVideoEnded exampleUrl (elapse exampleUrl (5000 + n) ?sc))
                  = Num 0"
    by blast+
  from c have c': "currentItemIndex (elapse exampleUrl 4999 ?sc) = Num 0" by simp
  from b have b': "currentItemIndex (handleVideoEnded exampleUrl (playerEffect exampleUrl ?st))
                    = Num 0"
    by (simp add: nextIndex_def)
  from h1 h2 h3 h4 a b' c' d[rule_format, of 0] d[rule_format, of 86400000]
  show ?thesis by blast
qed

subsection \<open>The empty playlist\<close>

lemma idleI:
  "playlist s = [] \<Longrightarrow> timer s = None \<Longrightarrow> mediaUrl s = None \<Longrightarrow> idle s"
  by (simp add: idle_def render_def)

lemma handleVideoEnded_empty:
  assumes "playlist st = []"
  shows "playlist (handleVideoEnded url st) = []"
    and "timer st = None \<Longrightarrow> timer (handleVideoEnded url st) = None"
    and "mediaUrl st = None \<Longrightarrow> mediaUrl (handleVideoEnded url st) = None"
  using assms
  by (simp_all add: handleVideoEnded_def setCurrentItemIndex_def Let_def playerEffect_empty)

text \<open>
  With no item the remainder is taken by zero: the index is \<open>NaN\<close> after the handler ran.
  It is not used while the playlist is empty, and the next notification sets it to 0.
\<close>

lemma handleVideoEnded_empty_index:
  "playlist st = [] \<Longrightarrow> currentItemIndex (handleVideoEnded url st) = NaN"
  by (cases "currentItemIndex st") (simp_all add: nextIndex_def)

text \<open>
  Claim C9.  When the playlist is empty the player effect leaves the client idle: no
  timeout is pending, the current media is cleared and the page shows the notice of the
  empty playlist, not an error.  This holds as well when a notification makes the
  playlist empty, whatever the state before.  Calling the advance handler in the idle
  state returns normally and the client is idle after it, and no amount of elapsed time
  changes the idle state.
\<close>

theorem empty_playlist_is_idle:
  assumes "playlist st = []"
  shows "idle (playerEffect url st)
       \<and> idle (handleVideoEnded url (playerEffect url st))
       \<and> (\<forall>n. elapse url n (playerEffect url st) = playerEffect url st)
       \<and> idle (onPlaylistUpdate url [] before)"
proof -
  have e: "playlist (playerEffect url st) = []" using assms by simp
  have 1: "idle (playerEffect url st)"
    using assms by (intro idleI) (simp_all add: playerEffect_empty)
  have 2: "idle (handleVideoEnded url (playerEffect url st))"
    using handleVideoEnded_empty[OF e] playerEffect_empty[OF assms] by (intro idleI) simp_all
  have 3: "elapse url n (playerEffect url st) = playerEffect url st" for n
    using playerEffect_empty(1)[OF assms] by (rule elapse_no_timer)
  have 4: "idle (onPlaylistUpdate url [] before)"
    unfolding onPlaylistUpdate_def by (intro idleI) (simp_all add: playerEffect_empty)
  from 1 2 3 4 show ?thesis by simp
qed

theorem empty_playlist_is_idle_witness:
  "playlist (initialClient\<lparr>screenId := Some ''S1''\<rparr>) = []
   \<and> idle (playerEffect exampleUrl (initialClient\<lparr>screenId := Some ''S1''\<rparr>))
   \<and> render (handleVideoEnded exampleUrl
        (playerEffect exampleUrl (initialClient\<lparr>screenId := Some ''S1''\<rparr>))) = Inr EmptyNotice
   \<and> timer (handleVideoEnded exampleUrl
        (playerEffect exampleUrl (initialClient\<lparr>screenId := Some ''S1''\<rparr>))) = None
   \<and> idle (onPlaylistUpdate exampleUrl []
        (initialClient\<lparr>screenId := Some ''S1'', playlist := [image5, video1],
                        currentItemIndex := Num 1\<rparr>))"
proof -
  let ?st = "initialClient\<lparr>screenId := Some ''S1''\<rparr>"
  have h: "playlist ?st = []" by (simp add: initialClient_def)
  note T = empty_playlist_is_idle[OF h, of exampleUrl
      "initialClient\<lparr>screenId := Some ''S1'', playlist := [image5, video1],
                      currentItemIndex := Num 1\<rparr>"]
  have s: "truthy (screenId (handleVideoEnded exampleUrl (playerEffect exampleUrl ?st)))"
    by (simp add: truthy_def initialClient_def)
  from T have "idle (handleVideoEnded exampleUrl (playerEffect exampleUrl ?st))" by blast
  with s have "render (handleVideoEnded exampleUrl (playerEffect exampleUrl ?st)) = Inr EmptyNotice"
    and "timer (handleVideoEnded exampleUrl (playerEffect exampleUrl ?st)) = None"
    by (simp_all add: idle_def)
  with T h show ?thesis by blast
qed

section \<open>Properties of the record store\<close>

lemma single_row_simps [simp]:
  "single_row [] = None" "single_row [r] = Some r"
  by (simp_all add: single_row_def)

lemma wf_store_Cons:
  "wf_store (x # xs) \<longleftrightarrow>
     s_id x \<notin> s_id ` set xs
     \<and> (s_pairing_code x = None \<or> s_pairing_code x \<notin> s_pairing_code ` set xs)
     \<and> wf_store xs"
  by (auto simp: wf_store_def)

lemma code_unique:
  assumes "wf_store db" and "S \<in> set db" and "s_pairing_code S = Some c"
  shows "filter (\<lambda>s. s_pairing_code s = Some c) db = [S]"
  using assms
proof (induction db)
  case Nil
  then show ?case by simp
next
  case (Cons x xs)
  from Cons.prems(1) have wf: "wf_store xs" by (simp add: wf_store_Cons)
  show ?case
  proof (cases "S = x")
    case True
    from Cons.prems(1,3) True have "Some c \<notin> s_pairing_code ` set xs"
      by (auto simp: wf_store_Cons)
    then have "filter (\<lambda>s. s_pairing_code s = Some c) xs = []"
      by (auto simp: filter_empty_conv image_iff)
    with True Cons.prems(3) show ?thesis by simp
  next
    case False
    with Cons.prems(2) have S: "S \<in> set xs" by simp
    then have "s_pairing_code S \<in> s_pairing_code ` set xs" by (rule imageI)
    then have "Some c \<in> s_pairing_code ` set xs"
      by (simp only: Cons.prems(3))
    with Cons.prems(1) have "s_pairing_code x \<noteq> Some c"
      by (auto simp: wf_store_Cons)
    with Cons.IH[OF wf S Cons.prems(3)] show ?thesis by simp
  qed
qed

lemma id_unique:
  assumes "wf_store db" and "S \<in> set db" and "s \<in> set db" and "s_id s = s_id S"
  shows "s = S"
proof -
  from assms(1) have "inj_on s_id (set db)" by (simp add: wf_store_def distinct_map)
  with assms(2-4) show ?thesis by (auto dest: inj_onD)
qed

lemma map_at_id:
  assumes "wf_store db" and "S \<in> set db"
  shows "map (\<lambda>s. if s_id s = s_id S then f s else s) db
           = map (\<lambda>s. if s = S then f S else s) db"
  using id_unique[OF assms] by (intro map_cong) auto

lemma id_filter:
  assumes "wf_store db" and "S \<in> set db"
  shows "filter (\<lambda>s. s_id s = s_id S) db = [S]"
proof -
  have "filter (\<lambda>s. s_id s = s_id S) db = filter (\<lambda>s. s = S) db"
    using id_unique[OF assms] by (intro filter_cong) auto
  also from assms(1) have "distinct db" by (simp add: wf_store_def distinct_map)
  then have "filter (\<lambda>s. s = S) db = [S]"
    using assms(2) by (induction db) (auto simp: filter_empty_conv)
  finally show ?thesis .
qed

lemma wf_store_keep:
  assumes "wf_store db"
    and "\<And>s. s_pairing_code (g s) = s_pairing_code s"
    and "\<And>s. s_id (g s) = s_id s"
  shows "wf_store (map (\<lambda>s. if P s then g s else s) db)"
proof -
  have "map s_id (map (\<lambda>s. if P s then g s else s) db) = map s_id db"
    using assms(3) by (induction db) simp_all
  moreover have "map s_pairing_code (map (\<lambda>s. if P s then g s else s) db) = map s_pairing_code db"
    using assms(2) by (induction db) simp_all
  ultimately show ?thesis using assms(1) by (simp only: wf_store_def)
qed

lemma wf_store_clear:
  assumes "wf_store db"
  shows "wf_store (map (\<lambda>s. if P s then s\<lparr>s_pairing_code := None\<rparr> else s) db)"
  using assms
proof (induction db)
  case Nil
  then show ?case by simp
next
  case (Cons x xs)
  let ?g = "\<lambda>s. if P s then s\<lparr>s_pairing_code := None\<rparr> else s"
  have "map s_id (map ?g xs) = map s_id xs" by (induction xs) simp_all
  then have "set (map s_id (map ?g xs)) = set (map s_id xs)" by (rule arg_cong)
  then have ids: "s_id ` set (map ?g xs) = s_id ` set xs" by (simp only: set_map)
  have codes: "c \<in> s_pairing_code ` set (map ?g xs) \<Longrightarrow> c \<noteq> None
                 \<Longrightarrow> c \<in> s_pairing_code ` set xs" for c
    by (auto simp: image_iff split: if_splits)
  from Cons.prems have wf: "wf_store xs" by (simp add: wf_store_Cons)
  have "wf_store (?g x # map ?g xs)"
    unfolding wf_store_Cons[of "?g x" "map ?g xs"]
    using Cons.prems Cons.IH[OF wf] ids codes[of "s_pairing_code x"]
    by (auto simp: wf_store_Cons)
  then show ?case by simp
qed


lemma update_eq_id_clear:
  assumes "wf_store db"
  shows "update_eq_id ok sid (\<lambda>s. s\<lparr>s_pairing_code := None\<rparr>) db
           = (if ok then (True, map (\<lambda>s. if s_id s = sid then s\<lparr>s_pairing_code := None\<rparr> else s) db)
              else (False, db))"
  using wf_store_clear[OF assms, of "\<lambda>s. s_id s = sid"] by (simp add: update_eq_id_def)

lemma update_eq_id_wf:
  "wf_store db \<Longrightarrow> wf_store (snd (update_eq_id ok sid g db))"
  by (simp add: update_eq_id_def Let_def)

lemma wf_store_set_code:
  assumes "wf_store db" and "Some N \<notin> s_pairing_code ` set db"
  shows "wf_store (map (\<lambda>s. if s_id s = sid then s\<lparr>s_pairing_code := Some N\<rparr> else s) db)"
  using assms
proof (induction db)
  case Nil
  then show ?case by simp
next
  case (Cons x xs)
  let ?g = "\<lambda>s. if s_id s = sid then s\<lparr>s_pairing_code := Some N\<rparr> else s"
  have "map s_id (map ?g xs) = map s_id xs" by (induction xs) simp_all
  then have "set (map s_id (map ?g xs)) = set (map s_id xs)" by (rule arg_cong)
  then have ids: "s_id ` set (map ?g xs) = s_id ` set xs" by (simp only: set_map)
  from Cons.prems have wf: "wf_store xs" and fresh: "Some N \<notin> s_pairing_code ` set xs"
    and x: "s_pairing_code x \<noteq> Some N" and idx: "s_id x \<notin> s_id ` set xs"
    by (auto simp: wf_store_Cons)
  have codes: "c \<in> s_pairing_code ` set xs \<or> c = Some N"
    if "c \<in> s_pairing_code ` set (map ?g xs)" for c
    using that by (auto simp: image_iff split: if_splits)
  have nochange: "map ?g xs = xs" if "s_id x = sid"
    using idx that by (intro map_idI) (auto simp: image_iff)
  have "wf_store (?g x # map ?g xs)"
  proof (cases "s_id x = sid")
    case True
    with Cons.prems nochange fresh show ?thesis by (simp add: wf_store_Cons)
  next
    case False
    have "s_pairing_code x = None \<or> s_pairing_code x \<notin> s_pairing_code ` set (map ?g xs)"
      using Cons.prems(1) codes[of "s_pairing_code x"] x by (auto simp: wf_store_Cons)
    with False idx ids Cons.IH[OF wf fresh] show ?thesis
      unfolding wf_store_Cons[of "?g x" "map ?g xs"] by simp
  qed
  then show ?case by simp
qed

lemma update_eq_id_at:
  assumes wf: "wf_store db" and S: "S \<in> set db"
    and wf': "wf_store (map (\<lambda>s. if s = S then f S else s) db)"
  shows "update_eq_id True (s_id S) f db = (True, map (\<lambda>s. if s = S then f S else s) db)"
  unfolding update_eq_id_def map_at_id[OF wf S, of f] using wf' by simp

lemma handleShowPairingCode_issues:
  assumes wf: "wf_store db" and S1: "S1 \<in> set db" and ed: "e_screenId ed = Some (s_id S1)"
    and ne: "s_id S1 \<noteq> []" and fresh: "\<forall>s\<in>set db. s_pairing_code s \<noteq> Some N"
  shows "handleShowPairingCode True N ed db
           = (ed\<lparr>e_pairingCode := Some N, e_isPairingModalOpen := True\<rparr>,
              map (\<lambda>s. if s = S1 then S1\<lparr>s_pairing_code := Some N\<rparr> else s) db)"
    and "wf_store (map (\<lambda>s. if s = S1 then S1\<lparr>s_pairing_code := Some N\<rparr> else s) db)"
proof -
  let ?db2 = "map (\<lambda>s. if s = S1 then S1\<lparr>s_pairing_code := Some N\<rparr> else s) db"
  from fresh have "Some N \<notin> s_pairing_code ` set db" by (auto simp: image_iff)
  from wf_store_set_code[OF wf this, of "s_id S1"]
  have "wf_store (map (\<lambda>s. if s_id s = s_id S1 then s\<lparr>s_pairing_code := Some N\<rparr> else s) db)" .
  then show wf2: "wf_store ?db2"
    by (simp only: map_at_id[OF wf S1, of "\<lambda>s. s\<lparr>s_pairing_code := Some N\<rparr>"])
  show "handleShowPairingCode True N ed db
           = (ed\<lparr>e_pairingCode := Some N, e_isPairingModalOpen := True\<rparr>, ?db2)"
    using ed ne update_eq_id_at[OF wf S1, of "\<lambda>s. s\<lparr>s_pairing_code := Some N\<rparr>", OF wf2]
    by (simp add: handleShowPairingCode_def truthy_def)
qed

subsection \<open>Requests of a session\<close>

lemma update_eq_id_as_anonymous:
  assumes "wf_store db"
  shows "update_eq_id_as None ok sid f db = (ok, db)"
proof -
  have "map (\<lambda>s. if s_id s = sid then s else s) db = db" by (induction db) simp_all
  with assms show ?thesis
    by (simp add: update_eq_id_as_def update_eq_id_def may_update_def own_row_def list_ex_iff)
qed

lemma update_eq_id_cong:
  assumes "\<forall>s\<in>set db. g s = f s"
  shows "update_eq_id ok sid g db = update_eq_id ok sid f db"
proof -
  have "map (\<lambda>s. if s_id s = sid then g s else s) db
          = map (\<lambda>s. if s_id s = sid then f s else s) db"
    using assms by (intro map_cong) auto
  then show ?thesis by (simp only: update_eq_id_def)
qed

lemma update_eq_id_as_owner:
  assumes own: "\<forall>s\<in>set db. s_user_id s = u" and keep: "\<And>s. s_user_id (f s) = s_user_id s"
  shows "update_eq_id_as (Some u) ok sid f db = update_eq_id ok sid f db"
proof -
  have "\<not> list_ex (\<lambda>s. s_id s = sid \<and> may_update (Some u) s \<and> \<not> may_update (Some u) (f s)) db"
    using keep by (simp add: list_ex_iff may_update_def own_row_def)
  moreover have "\<forall>s\<in>set db. (if may_update (Some u) s then f s else s) = f s"
    using own by (simp add: may_update_def own_row_def)
  ultimately show ?thesis
    using update_eq_id_cong[of db "\<lambda>s. if may_update (Some u) s then f s else s" f ok sid]
    by (simp only: update_eq_id_as_def if_False)
qed

lemma select_single_as_code:
  "select_single_as uid ok (\<lambda>s. s_pairing_code s = Some c) db
     = select_single ok (\<lambda>s. s_pairing_code s = Some c) db"
proof -
  have "filter (\<lambda>s. s_pairing_code s = Some c) (filter (may_select uid) db)
          = filter (\<lambda>s. s_pairing_code s = Some c) db"
    by (induction db) (auto simp: may_select_def)
  then show ?thesis by (simp add: select_single_as_def select_single_def)
qed

section \<open>Properties of pairing\<close>

lemma handlePairing_no_match:
  assumes "\<forall>s\<in>set db. s_pairing_code s \<noteq> Some (toUpperCase (pairingCode st))"
  shows "handlePairing toUpperCase uid a b st db = (InvalidCode, st\<lparr>loading := False\<rparr>, db)"
proof -
  from assms have "filter (\<lambda>s. s_pairing_code s = Some (toUpperCase (pairingCode st))) db = []"
    by (simp add: filter_empty_conv)
  then show ?thesis
    by (simp add: handlePairing_def select_single_as_code select_single_def)
qed

text \<open>
  What the handler does when the session is the owner's and the requests are performed:
  the code of the screen, and of no other, is cleared.
\<close>

lemma handlePairing_as_owner:
  assumes wf: "wf_store db" and S: "S \<in> set db"
    and code: "s_pairing_code S = Some (toUpperCase (pairingCode st))"
    and own: "\<forall>s\<in>set db. s_user_id s = u"
  shows "handlePairing toUpperCase (Some u) True True st db
           = (Paired (s_id S),
              st\<lparr>localStorage := Some (s_id S), screenId := Some (s_id S), loading := False\<rparr>,
              map (\<lambda>s. if s = S then S\<lparr>s_pairing_code := None\<rparr> else s) db)"
  using code_unique[OF wf S code] update_eq_id_clear[OF wf, of True "s_id S"]
    map_at_id[OF wf S, of "\<lambda>s. s\<lparr>s_pairing_code := None\<rparr>"]
    update_eq_id_as_owner[of db u "\<lambda>s. s\<lparr>s_pairing_code := None\<rparr>" True "s_id S", OF own]
  by (simp add: handlePairing_def select_single_as_code select_single_def)

text \<open>
  A display without a session finds the screen, since a row with a pairing code is
  readable by anyone, but no policy lets it update the row: whatever the answer to the
  update, the table is as before.
\<close>

lemma handlePairing_anonymous:
  assumes wf: "wf_store db" and S: "S \<in> set db"
    and code: "s_pairing_code S = Some (toUpperCase (pairingCode st))"
  shows "handlePairing toUpperCase None True update_ok st db
           = (Paired (s_id S),
              st\<lparr>localStorage := Some (s_id S), screenId := Some (s_id S), loading := False\<rparr>,
              db)"
  using code_unique[OF wf S code] update_eq_id_as_anonymous[OF wf]
  by (simp add: handlePairing_def select_single_as_code select_single_def)

text \<open>
  Claim C1 says that a redemption clears the pairing code of the screen and that a
  second redemption with the same code fails.  The handler sends the update that would
  clear the code (its comment: invalidate the code) and does not look at the answer;
  for the display, which has no session, the policies admit no update.  So in a store
  that keeps identifiers and pairing codes unique, when the looked-up code is the code
  of a screen, the redemption by a display without a session reports the screen and
  binds the client, the table is unchanged, the code is still on the screen, and any
  later redemption of that code by a display without a session reports the same screen
  again.
\<close>

theorem redeemed_code_stays_valid:
  assumes wf: "wf_store db" and S: "S \<in> set db"
    and code: "s_pairing_code S = Some (toUpperCase (pairingCode st))"
  shows "handlePairing toUpperCase None True update_ok st db
           = (Paired (s_id S),
              st\<lparr>localStorage := Some (s_id S), screenId := Some (s_id S), loading := False\<rparr>,
              db)
       \<and> (\<forall>st2 :: DisplayClient. toUpperCase (pairingCode st2) = toUpperCase (pairingCode st)
            \<longrightarrow> fst (handlePairing toUpperCase None True update_ok st2
                       (snd (snd (handlePairing toUpperCase None True update_ok st db))))
                 = Paired (s_id S))"
proof -
  note first = handlePairing_anonymous[where toUpperCase = toUpperCase and st = st
      and update_ok = update_ok, OF wf S code]
  have "fst (handlePairing toUpperCase None True update_ok st2 db) = Paired (s_id S)"
    if "toUpperCase (pairingCode st2) = toUpperCase (pairingCode st)" for st2 :: DisplayClient
    using handlePairing_anonymous[where toUpperCase = toUpperCase and st = st2
        and update_ok = update_ok, OF wf S] code that by simp
  with first show ?thesis by simp
qed

theorem redeemed_code_stays_valid_witness:
  "wf_store [lobby, canteen] \<and> lobby \<in> set [lobby, canteen]
   \<and> s_pairing_code lobby = Some (upperAscii (pairingCode (typed ''AB12CD'')))
   \<and> handlePairing upperAscii None True True (typed ''AB12CD'') [lobby, canteen]
       = (Paired ''S1'',
          (typed ''AB12CD'')\<lparr>localStorage := Some ''S1'', screenId := Some ''S1'', loading := False\<rparr>,
          [lobby, canteen])
   \<and> s_pairing_code lobby = Some ''AB12CD''
   \<and> fst (handlePairing upperAscii None True True (typed ''ab12cd'')
        (snd (snd (handlePairing upperAscii None True True (typed ''AB12CD'') [lobby, canteen]))))
       = Paired ''S1''"
proof -
  have wf: "wf_store [lobby, canteen]" by (simp add: wf_store_def lobby_def canteen_def)
  have h1: "lobby \<in> set [lobby, canteen]" by simp
  have up: "upperAscii ''AB12CD'' = ''AB12CD''" "upperAscii ''ab12cd'' = ''AB12CD''"
    by (simp_all add: upperAscii_def)
  have h2: "s_pairing_code lobby = Some (upperAscii (pairingCode (typed ''AB12CD'')))"
    and c: "s_pairing_code lobby = Some ''AB12CD''"
    by (simp_all add: up typed_def lobby_def)
  have k: "upperAscii (pairingCode (typed ''ab12cd''))
             = upperAscii (pairingCode (typed ''AB12CD''))"
    by (simp add: typed_def up)
  have i: "s_id lobby = ''S1''" by (simp add: lobby_def)
  note T = redeemed_code_stays_valid[where toUpperCase = upperAscii
      and st = "typed ''AB12CD''" and update_ok = True, OF wf h1 h2, unfolded i]
  from T k have "fst (handlePairing upperAscii None True True (typed ''ab12cd'')
        (snd (snd (handlePairing upperAscii None True True (typed ''AB12CD'') [lobby, canteen]))))
       = Paired ''S1''"
    by blast
  with T wf h1 h2 c show ?thesis by blast
qed

subsection \<open>The scenario of the issued code\<close>

text \<open>
  Claim C4 says that, a code \<open>AB12CD\<close> being issued on a screen, the redemption of
  \<open>ab12cd\<close> succeeds, binds the client to the screen and makes the pairing code of the
  screen \<open>null\<close>.  For the display without a session: after the owner has issued the
  code on a screen of a store that keeps identifiers and pairing codes unique, the
  redemption of \<open>ab12cd\<close>, which \<open>toUpperCase\<close> maps to \<open>AB12CD\<close>, reports that screen
  and binds the client to it, and the table is the one the issue left: the pairing code
  of the screen is \<open>AB12CD\<close> as before, not \<open>null\<close>.
\<close>

theorem issued_code_not_cleared:
  assumes wf: "wf_store db" and S1: "S1 \<in> set db" and ed: "e_screenId ed = Some (s_id S1)"
    and ne: "s_id S1 \<noteq> []" and fresh: "\<forall>s\<in>set db. s_pairing_code s \<noteq> Some ''AB12CD''"
    and up: "toUpperCase ''ab12cd'' = ''AB12CD''"
  shows "handlePairing toUpperCase None True update_ok (typed ''ab12cd'')
           (snd (handleShowPairingCode True ''AB12CD'' ed db))
         = (Paired (s_id S1),
            (typed ''ab12cd'')\<lparr>localStorage := Some (s_id S1), screenId := Some (s_id S1),
                               loading := False\<rparr>,
            map (\<lambda>s. if s = S1 then S1\<lparr>s_pairing_code := Some ''AB12CD''\<rparr> else s) db)
       \<and> S1\<lparr>s_pairing_code := Some ''AB12CD''\<rparr>
           \<in> set (snd (snd (handlePairing toUpperCase None True update_ok (typed ''ab12cd'')
                               (snd (handleShowPairingCode True ''AB12CD'' ed db)))))"
proof -
  let ?S1' = "S1\<lparr>s_pairing_code := Some ''AB12CD''\<rparr>"
  let ?db2 = "map (\<lambda>s. if s = S1 then ?S1' else s) db"
  note issue = handleShowPairingCode_issues[OF wf S1 ed ne fresh]
  have in2: "?S1' \<in> set ?db2" using S1 by (auto simp: image_iff)
  have key: "s_pairing_code ?S1' = Some (toUpperCase (pairingCode (typed ''ab12cd'')))"
    by (simp add: typed_def up)
  from handlePairing_anonymous[where toUpperCase = toUpperCase and st = "typed ''ab12cd''"
      and update_ok = update_ok, OF issue(2) in2 key] issue(1) in2
  show ?thesis by simp
qed

theorem issued_code_not_cleared_witness:
  "wf_store [canteen] \<and> canteen \<in> set [canteen]
   \<and> e_screenId (editor1\<lparr>e_screenId := Some ''S2''\<rparr>) = Some (s_id canteen)
   \<and> upperAscii ''ab12cd'' = ''AB12CD''
   \<and> handlePairing upperAscii None True True (typed ''ab12cd'')
        (snd (handleShowPairingCode True ''AB12CD'' (editor1\<lparr>e_screenId := Some ''S2''\<rparr>)
                [canteen]))
       = (Paired ''S2'',
          (typed ''ab12cd'')\<lparr>localStorage := Some ''S2'', screenId := Some ''S2'',
                             loading := False\<rparr>,
          [canteen\<lparr>s_pairing_code := Some ''AB12CD''\<rparr>])"
proof -
  have wf: "wf_store [canteen]" by (simp add: wf_store_def)
  have g1: "canteen \<in> set [canteen]" by simp
  have g2: "e_screenId (editor1\<lparr>e_screenId := Some ''S2''\<rparr>) = Some (s_id canteen)"
    and g3: "s_id canteen \<noteq> []"
    and g4: "\<forall>s\<in>set [canteen]. s_pairing_code s \<noteq> Some ''AB12CD''"
    by (simp_all add: canteen_def)
  have up: "upperAscii ''ab12cd'' = ''AB12CD''" by (simp add: upperAscii_def)
  have i: "s_id canteen = ''S2''" by (simp add: canteen_def)
  have m: "map (\<lambda>s. if s = canteen then canteen\<lparr>s_pairing_code := Some ''AB12CD''\<rparr> else s)
             [canteen] = [canteen\<lparr>s_pairing_code := Some ''AB12CD''\<rparr>]"
    by simp
  note T = issued_code_not_cleared[where toUpperCase = upperAscii and update_ok = True,
      OF wf g1 g2 g3 g4 up, unfolded i m]
  from T wf g1 g2 up show ?thesis by blast
qed

section \<open>Properties of the screen editor\<close>

subsection \<open>Appending a media item\<close>

text \<open>
  Claim C2, as stated, fails for a media row that is neither an image nor a video and
  has no duration: the entry appended for it has duration 30, not 10.
\<close>

theorem non_image_default_counterexample:
  "m_duration pdfMedia = None
   \<and> \<not> opt_startsWith (m_mime_type pdfMedia) ''video/''
   \<and> p_duration (last (e_playlist (addToPlaylist pdfMedia editor1))) = Some 30
   \<and> p_duration (last (e_playlist (addToPlaylist pdfMedia editor1))) \<noteq> Some 10"
  by (simp add: addToPlaylist_def pdfMedia_def opt_startsWith_def startsWith_def num_or_def)

text \<open>
  Claim C2, amended.  \<open>addToPlaylist\<close> appends one entry to the end of the working
  playlist and keeps the entries before it.  The duration of the new entry is the
  duration of the media row when that is set and not zero; otherwise it is 10 when the
  MIME type starts with \<open>image/\<close> and 30 for every other MIME type, a missing one and
  the video types included.
\<close>

theorem addToPlaylist_duration:
  "butlast (e_playlist (addToPlaylist media ed)) = e_playlist ed
   \<and> (\<forall>d. m_duration media = Some d \<and> d \<noteq> 0
          \<longrightarrow> p_duration (last (e_playlist (addToPlaylist media ed))) = Some d)
   \<and> ((m_duration media = None \<or> m_duration media = Some 0)
         \<and> opt_startsWith (m_mime_type media) ''image/''
        \<longrightarrow> p_duration (last (e_playlist (addToPlaylist media ed))) = Some 10)
   \<and> ((m_duration media = None \<or> m_duration media = Some 0)
         \<and> \<not> opt_startsWith (m_mime_type media) ''image/''
        \<longrightarrow> p_duration (last (e_playlist (addToPlaylist media ed))) = Some 30)"
  by (auto simp: addToPlaylist_def Let_def num_or_def)

theorem addToPlaylist_duration_witness:
  "m_duration (pdfMedia\<lparr>m_duration := Some 7\<rparr>) = Some 7 \<and> (7 :: int) \<noteq> 0
   \<and> p_duration (last (e_playlist (addToPlaylist (pdfMedia\<lparr>m_duration := Some 7\<rparr>) editor1)))
       = Some 7
   \<and> m_duration pngMedia = None \<and> opt_startsWith (m_mime_type pngMedia) ''image/''
   \<and> p_duration (last (e_playlist (addToPlaylist pngMedia editor1))) = Some 10
   \<and> m_duration pdfMedia = None \<and> \<not> opt_startsWith (m_mime_type pdfMedia) ''image/''
   \<and> p_duration (last (e_playlist (addToPlaylist pdfMedia editor1))) = Some 30
   \<and> butlast (e_playlist (addToPlaylist pdfMedia editor1)) = e_playlist editor1"
proof -
  have h1: "m_duration (pdfMedia\<lparr>m_duration := Some 7\<rparr>) = Some 7 \<and> (7 :: int) \<noteq> 0" by simp
  have h2: "m_duration pngMedia = None" "opt_startsWith (m_mime_type pngMedia) ''image/''"
    by (simp_all add: pngMedia_def pdfMedia_def opt_startsWith_def startsWith_def)
  have h3: "m_duration pdfMedia = None" "\<not> opt_startsWith (m_mime_type pdfMedia) ''image/''"
    by (simp_all add: pdfMedia_def opt_startsWith_def startsWith_def)
  note A = addToPlaylist_duration[of "pdfMedia\<lparr>m_duration := Some 7\<rparr>" editor1]
  note B = addToPlaylist_duration[of pngMedia editor1]
  note C = addToPlaylist_duration[of pdfMedia editor1]
  from A h1 have a: "p_duration (last (e_playlist
        (addToPlaylist (pdfMedia\<lparr>m_duration := Some 7\<rparr>) editor1))) = Some 7"
    by blast
  from B h2 have b: "p_duration (last (e_playlist (addToPlaylist pngMedia editor1))) = Some 10"
    by blast
  from C h3 have c: "p_duration (last (e_playlist (addToPlaylist pdfMedia editor1))) = Some 30"
    and d: "butlast (e_playlist (addToPlaylist pdfMedia editor1)) = e_playlist editor1"
    by blast+
  from h1 h2 h3 a b c d show ?thesis by blast
qed

subsection \<open>Saving the playlist\<close>

lemma wf_store_replace_playlist:
  assumes "wf_store db"
  shows "wf_store (map (\<lambda>s. if s = S then S\<lparr>s_playlist := pl\<rparr> else s) db)"
proof -
  have eq: "map (\<lambda>s. if s = S then S\<lparr>s_playlist := pl\<rparr> else s) db
          = map (\<lambda>s. if s = S then s\<lparr>s_playlist := pl\<rparr> else s) db"
    by (intro map_cong) auto
  have "wf_store (map (\<lambda>s. if s = S then s\<lparr>s_playlist := pl\<rparr> else s) db)"
    using assms by (intro wf_store_keep) simp_all
  then show ?thesis by (simp only: eq)
qed

lemma readPlaylist_row:
  assumes "wf_store db" and "S \<in> set db"
  shows "readPlaylist True (s_id S) db = Some (s_playlist S)"
  using id_filter[OF assms] by (simp add: readPlaylist_def select_single_def)

lemma savePlaylist_ok:
  assumes wf: "wf_store db" and S: "S \<in> set db" and ed: "e_screenId ed = Some (s_id S)"
    and ne: "s_id S \<noteq> []"
  shows "savePlaylist True ed db
           = (Some Saved, map (\<lambda>s. if s = S then S\<lparr>s_playlist := e_playlist ed\<rparr> else s) db)"
  using ed ne
    update_eq_id_at[OF wf S, of "\<lambda>s. s\<lparr>s_playlist := e_playlist ed\<rparr>",
      OF wf_store_replace_playlist[OF wf]]
  by (simp add: savePlaylist_def truthy_def)

lemma savePlaylist_failed:
  assumes "e_screenId ed = Some sid" and "sid \<noteq> []"
  shows "savePlaylist False ed db = (Some SaveFailed, db)"
  using assms by (simp add: savePlaylist_def truthy_def update_eq_id_def)

text \<open>
  Claim C8.  For an editor opened on a screen of a store that keeps identifiers and
  pairing codes unique: a performed \<open>savePlaylist\<close> is one update that replaces the
  \<open>playlist\<close> attribute of that screen's row by the whole working playlist and touches
  nothing else, and reading the playlist of the screen back gives exactly the working
  playlist; a \<open>savePlaylist\<close> whose update fails reports the failure and leaves the
  store as it was, so that reading back gives the playlist stored before.
\<close>

theorem commit_round_trip:
  assumes wf: "wf_store db" and S: "S \<in> set db" and ed: "e_screenId ed = Some (s_id S)"
    and ne: "s_id S \<noteq> []"
  shows "savePlaylist True ed db
           = (Some Saved, map (\<lambda>s. if s = S then S\<lparr>s_playlist := e_playlist ed\<rparr> else s) db)
       \<and> readPlaylist True (s_id S) (snd (savePlaylist True ed db)) = Some (e_playlist ed)
       \<and> savePlaylist False ed db = (Some SaveFailed, db)
       \<and> readPlaylist True (s_id S) (snd (savePlaylist False ed db)) = Some (s_playlist S)"
proof -
  let ?S' = "S\<lparr>s_playlist := e_playlist ed\<rparr>"
  let ?db' = "map (\<lambda>s. if s = S then ?S' else s) db"
  note ok = savePlaylist_ok[OF assms]
  have "?S' \<in> set ?db'" using S by (auto simp: image_iff)
  from readPlaylist_row[OF wf_store_replace_playlist[OF wf] this]
  have "readPlaylist True (s_id S) ?db' = Some (e_playlist ed)" by simp
  with ok savePlaylist_failed[OF ed ne, of db] readPlaylist_row[OF wf S]
  show ?thesis by simp
qed

theorem commit_round_trip_witness:
  "wf_store [lobby, canteen] \<and> lobby \<in> set [lobby, canteen]
   \<and> e_screenId editor1 = Some (s_id lobby) \<and> s_id lobby \<noteq> []
   \<and> snd (savePlaylist True editor1 [lobby, canteen])
       = [lobby\<lparr>s_playlist := [image5, video1, image5]\<rparr>, canteen]
   \<and> readPlaylist True (s_id lobby) (snd (savePlaylist True editor1 [lobby, canteen]))
       = Some [image5, video1, image5]
   \<and> savePlaylist False editor1 [lobby, canteen] = (Some SaveFailed, [lobby, canteen])
   \<and> readPlaylist True (s_id lobby) (snd (savePlaylist False editor1 [lobby, canteen]))
       = Some [image5]"
proof -
  have wf: "wf_store [lobby, canteen]" by (simp add: wf_store_def lobby_def canteen_def)
  have h1: "lobby \<in> set [lobby, canteen]" by simp
  have h2: "e_screenId editor1 = Some (s_id lobby)" by (simp add: editor1_def lobby_def)
  have h3: "s_id lobby \<noteq> []" by (simp add: lobby_def)
  have m: "map (\<lambda>s. if s = lobby then lobby\<lparr>s_playlist := [image5, video1, image5]\<rparr> else s)
             [lobby, canteen]
           = [lobby\<lparr>s_playlist := [image5, video1, image5]\<rparr>, canteen]"
    by (simp add: lobby_def canteen_def)
  have p: "e_playlist editor1 = [image5, video1, image5]" "s_playlist lobby = [image5]"
    by (simp_all add: editor1_def lobby_def)
  note T = commit_round_trip[OF wf h1 h2 h3, unfolded p m]
  from T have "snd (savePlaylist True editor1 [lobby, canteen])
                 = [lobby\<lparr>s_playlist := [image5, video1, image5]\<rparr>, canteen]"
    by simp
  with T wf h1 h2 h3 show ?thesis by blast
qed

section \<open>Properties of the drop handler\<close>





end
